theory Spec2Isabelle
  imports Complex_Main
begin

section \<open>The building table\<close>

text \<open>
  The dashboard of \<^verbatim>\<open>app.py\<close> loads the table \<^verbatim>\<open>presampled_points\<close> into a pandas
  DataFrame and normalises its columns: \<^verbatim>\<open>tUNITS\<close>, \<^verbatim>\<open>x\<close> and \<^verbatim>\<open>y\<close> become
  float64, \<^verbatim>\<open>vacant\<close> becomes bool, \<^verbatim>\<open>zipcode_str\<close> becomes str.

  A float64 is a finite number, an infinity or NaN. The program only compares
  these values, so a finite one is modelled by the real number it stands for.
\<close>

datatype float64 = Fin real | PosInf | NegInf | NaN

text \<open>The comparison \<^verbatim>\<open><=\<close> of IEEE 754: every comparison with NaN is false.\<close>

fun float_le :: "float64 \<Rightarrow> float64 \<Rightarrow> bool" where
  "float_le NaN b = False"
| "float_le a NaN = False"
| "float_le NegInf b = True"
| "float_le a PosInf = True"
| "float_le (Fin a) (Fin b) = (a \<le> b)"
| "float_le PosInf b = False"
| "float_le a NegInf = False"

definition float_ge :: "float64 \<Rightarrow> float64 \<Rightarrow> bool" where
  "float_ge a b = float_le b a"

text \<open>Python's \<^verbatim>\<open>==\<close> on floats: NaN is equal to nothing, not even to itself.\<close>

definition float_eq :: "float64 \<Rightarrow> float64 \<Rightarrow> bool" where
  "float_eq a b = (a \<noteq> NaN \<and> a = b)"

definition float_lt :: "float64 \<Rightarrow> float64 \<Rightarrow> bool" where
  "float_lt a b = (float_le a b \<and> a \<noteq> b)"

text \<open>
  One row of the DataFrame after normalisation. The columns \<^verbatim>\<open>x\<close> and \<^verbatim>\<open>y\<close>
  (copied to \<^verbatim>\<open>lon\<close> and \<^verbatim>\<open>lat\<close>) are the fields \<open>coord_x\<close> and \<open>coord_y\<close>.
\<close>

record building =
  tUNITS :: float64
  vacant :: bool
  zipcode_str :: string
  building_type :: string
  coord_x :: float64
  coord_y :: float64

text \<open>The values of the four widgets, as \<^verbatim>\<open>main\<close> reads them on one render.\<close>

record filters =
  selected_units :: "float64 \<times> float64"
  selected_zipcode :: string
  selected_vacant :: string
  selected_building_types :: "string list"

text \<open>
  The exceptions that can end a render. \<open>PatternError\<close> is what the string
  engine raises for a text it cannot compile: \<^verbatim>\<open>re.error\<close> when the column holds
  Python strings, \<^verbatim>\<open>ArrowInvalid\<close> when it holds Arrow strings.
\<close>

datatype py_error = KeyError | ValueError | PatternError | StreamlitAPIException

text \<open>
  What the libraries decide and the source does not. The source pins no
  version of pandas, numpy or Streamlit, so every theorem below holds for each
  value of these fields.
  \<^item> \<open>compiles_first\<close>: \<^verbatim>\<open>str.contains\<close> compiles its text before it looks at
    the column (pandas on Python strings), so that a text that does not compile
    is refused on an empty column too; otherwise (Arrow strings) an empty column
    is answered without compiling.
  \<^item> \<open>other_patterns\<close>: the engine on the patterns that are not modelled here.
  \<^item> \<open>type_ties\<close>, \<open>unit_ties\<close>: which of two values of equal count
    \<^verbatim>\<open>value_counts\<close> lists first.
  \<^item> \<open>slider_rejects\<close>: the bounds a slider refuses besides equal ones.
  \<^item> \<open>random_draw\<close>: what the generator answers at each step of a shuffle; any
    natural number stands for an answer, taken modulo the size of the interval
    that is asked for.
\<close>

record library =
  compiles_first :: bool
  other_patterns :: "string \<Rightarrow> py_error + (string \<Rightarrow> bool)"
  type_ties :: "string \<Rightarrow> string \<Rightarrow> bool"
  unit_ties :: "float64 \<Rightarrow> float64 \<Rightarrow> bool"
  slider_rejects :: "float64 \<Rightarrow> float64 \<Rightarrow> bool"
  random_draw :: "nat \<Rightarrow> nat"

section \<open>Series.str.contains\<close>

text \<open>
  \<^verbatim>\<open>data["zipcode_str"].str.contains(selected_zipcode)\<close> leaves the parameter
  \<^verbatim>\<open>regex\<close> at its default \<^verbatim>\<open>True\<close>: the text is compiled as a regular
  expression and the rows are kept where a search finds a match. The characters
  below are the ones the regular expression syntax reads as operators.
\<close>

definition re_special :: "char list" where
  "re_special = CHR 0x5C # ''.^$*+?{}[]|()''"

text \<open>
  The part of the syntax modelled here: a pattern of ordinary characters and
  dots. An ordinary character matches itself, a dot matches any character but
  the newline. A character of a string stands for one code point of the
  Python string.
\<close>

datatype atom = Lit char | Dot

definition to_atom :: "char \<Rightarrow> atom" where
  "to_atom c = (if c = CHR ''.'' then Dot else Lit c)"

fun atom_matches :: "atom \<Rightarrow> char \<Rightarrow> bool" where
  "atom_matches (Lit a) c = (c = a)"
| "atom_matches Dot c = (c \<noteq> CHR 0x0A)"

text \<open>\<open>match_here as s\<close>: the atoms match a prefix of \<open>s\<close>.\<close>

fun match_here :: "atom list \<Rightarrow> string \<Rightarrow> bool" where
  "match_here [] s = True"
| "match_here (a # as) [] = False"
| "match_here (a # as) (c # cs) = (atom_matches a c \<and> match_here as cs)"

text \<open>\<open>re_search as s\<close>: the atoms match at some position of \<open>s\<close> (unanchored).\<close>

fun re_search :: "atom list \<Rightarrow> string \<Rightarrow> bool" where
  "re_search as [] = match_here as []"
| "re_search as (c # cs) = (match_here as (c # cs) \<or> re_search as cs)"

text \<open>
  What compiling makes of a pattern: an error, or the predicate that searches
  a string for it. A pattern of ordinary characters and dots is compiled as
  above. A pattern that starts with a repetition operator is refused (nothing
  to repeat). Every other pattern is left to \<open>other\<close>, about which nothing is
  assumed.
\<close>

definition plain_pattern :: "string \<Rightarrow> bool" where
  "plain_pattern pat = list_all (\<lambda>c. c = CHR ''.'' \<or> c \<notin> set re_special) pat"

definition re_compile :: "(string \<Rightarrow> py_error + (string \<Rightarrow> bool)) \<Rightarrow> string \<Rightarrow> py_error + (string \<Rightarrow> bool)" where
  "re_compile other pat =
     (if plain_pattern pat then Inr (re_search (map to_atom pat))
      else (case pat of
              [] \<Rightarrow> other pat
            | c # cs \<Rightarrow> if c \<in> set ''*+?'' then Inl PatternError else other pat))"

definition str_contains :: "library \<Rightarrow> string \<Rightarrow> string list \<Rightarrow> py_error + bool list" where
  "str_contains lib pat col =
     (case re_compile (other_patterns lib) pat of
        Inl e \<Rightarrow> if col = [] \<and> \<not> compiles_first lib then Inr [] else Inl e
      | Inr m \<Rightarrow> Inr (map m col))"

section \<open>The filter\<close>

text \<open>
  The element-wise operations on columns that the filter expression uses.
  A Boolean column is a list of truth values, one per row.
\<close>

definition series_ge :: "float64 list \<Rightarrow> float64 \<Rightarrow> bool list" where
  "series_ge col v = map (\<lambda>u. float_ge u v) col"

definition series_le :: "float64 list \<Rightarrow> float64 \<Rightarrow> bool list" where
  "series_le col v = map (\<lambda>u. float_le u v) col"

definition isin :: "string list \<Rightarrow> string list \<Rightarrow> bool list" where
  "isin col vals = map (\<lambda>b. b \<in> set vals) col"

definition series_eq :: "bool list \<Rightarrow> bool \<Rightarrow> bool list" where
  "series_eq col v = map (\<lambda>b. b = v) col"

definition mask_and :: "bool list \<Rightarrow> bool list \<Rightarrow> bool list" where
  "mask_and m n = map (\<lambda>(a, b). a \<and> b) (zip m n)"

definition scalar_or :: "bool \<Rightarrow> bool list \<Rightarrow> bool list" where
  "scalar_or s m = map (\<lambda>b. s \<or> b) m"

text \<open>\<^verbatim>\<open>data[mask]\<close>: the rows whose mask entry is true, in the order of the table.\<close>

definition select_rows :: "'a list \<Rightarrow> bool list \<Rightarrow> 'a list" where
  "select_rows df m = map fst (filter snd (zip df m))"

text \<open>
  Lines 72 to 81 of \<^verbatim>\<open>app.py\<close>. The five masks are built in the order of the
  source and joined with \<^verbatim>\<open>&\<close>; an error of \<^verbatim>\<open>str.contains\<close> ends the expression.
\<close>

definition filter_records :: "library \<Rightarrow> building list \<Rightarrow> filters \<Rightarrow> py_error + building list" where
  "filter_records lib data p =
     (let m1 = series_ge (map tUNITS data) (fst (selected_units p));
          m2 = series_le (map tUNITS data) (snd (selected_units p));
          m3 = isin (map building_type data) (selected_building_types p)
      in case str_contains lib (selected_zipcode p) (map zipcode_str data) of
           Inl e \<Rightarrow> Inl e
         | Inr m4 \<Rightarrow>
             (let m5 = scalar_or (selected_vacant p = ''All'')
                         (series_eq (map vacant data) (selected_vacant p = ''Vacant''))
              in Inr (select_rows data (mask_and (mask_and (mask_and (mask_and m1 m2) m3) m4) m5))))"

text \<open>The four predicates of the filter contract, on one record.\<close>

definition unit_in_range :: "filters \<Rightarrow> building \<Rightarrow> bool" where
  "unit_in_range p r =
     (float_le (fst (selected_units p)) (tUNITS r) \<and> float_le (tUNITS r) (snd (selected_units p)))"

definition type_selected :: "filters \<Rightarrow> building \<Rightarrow> bool" where
  "type_selected p r = (building_type r \<in> set (selected_building_types p))"

definition vacancy_ok :: "filters \<Rightarrow> building \<Rightarrow> bool" where
  "vacancy_ok p r =
     (selected_vacant p = ''All'' \<or> vacant r = (selected_vacant p = ''Vacant''))"

definition satisfies :: "(string \<Rightarrow> bool) \<Rightarrow> filters \<Rightarrow> building \<Rightarrow> bool" where
  "satisfies zip_pred p r =
     (unit_in_range p r \<and> type_selected p r \<and> zip_pred (zipcode_str r) \<and> vacancy_ok p r)"



text \<open>
  The reading of the zipcode parameter in the specification: \<open>sub\<close> occurs in
  \<open>s\<close> as a contiguous run of characters, anywhere, compared character by character.
\<close>

definition is_substring :: "string \<Rightarrow> string \<Rightarrow> bool" where
  "is_substring sub s = (\<exists>pre suf. s = pre @ sub @ suf)"

text \<open>
  The reading of the same parameter as a pattern: some contiguous run of \<open>s\<close>
  matches the pattern position by position.
\<close>

definition pattern_occurs :: "string \<Rightarrow> string \<Rightarrow> bool" where
  "pattern_occurs pat s =
     (\<exists>pre mid suf. s = pre @ mid @ suf \<and> list_all2 atom_matches (map to_atom pat) mid)"

section \<open>The two distributions\<close>

text \<open>
  \<^verbatim>\<open>Series.value_counts()\<close> counts the occurrences of every distinct value and
  lists the values by falling count. The order among values of equal count is
  the library's: \<open>tie a b\<close> says that \<open>a\<close> is listed before \<open>b\<close> when their counts
  are equal. With the default \<^verbatim>\<open>dropna=True\<close> the missing values are left out
  first.
\<close>

definition dropna :: "float64 list \<Rightarrow> float64 list" where
  "dropna vs = filter (\<lambda>v. v \<noteq> NaN) vs"

definition uniques :: "'a list \<Rightarrow> 'a list" where
  "uniques vs = rev (remdups (rev vs))"

fun insort_count :: "('a \<Rightarrow> 'a \<Rightarrow> bool) \<Rightarrow> 'a \<times> nat \<Rightarrow> ('a \<times> nat) list \<Rightarrow> ('a \<times> nat) list" where
  "insort_count tie e [] = [e]"
| "insort_count tie e (f # fs) =
     (if snd f < snd e \<or> (snd f = snd e \<and> tie (fst e) (fst f)) then e # f # fs
      else f # insort_count tie e fs)"

definition value_counts :: "('a \<Rightarrow> 'a \<Rightarrow> bool) \<Rightarrow> 'a list \<Rightarrow> ('a \<times> nat) list" where
  "value_counts tie vs =
     foldr (insort_count tie) (map (\<lambda>k. (k, count_list vs k)) (uniques vs)) []"

text \<open>
  \<^verbatim>\<open>sort_index()\<close> orders the entries by their label, rising, NaN labels last.
\<close>

definition index_le :: "float64 \<Rightarrow> float64 \<Rightarrow> bool" where
  "index_le a b = (b = NaN \<or> float_le a b)"

fun insort_index :: "float64 \<times> nat \<Rightarrow> (float64 \<times> nat) list \<Rightarrow> (float64 \<times> nat) list" where
  "insort_index e [] = [e]"
| "insort_index e (f # fs) =
     (if index_le (fst e) (fst f) then e # f # fs else f # insort_index e fs)"

definition sort_index :: "(float64 \<times> nat) list \<Rightarrow> (float64 \<times> nat) list" where
  "sort_index es = foldr insort_index es []"

text \<open>Line 87 and line 100 of \<^verbatim>\<open>app.py\<close>.\<close>

definition filtered_counts :: "library \<Rightarrow> building list \<Rightarrow> (string \<times> nat) list" where
  "filtered_counts lib filtered = value_counts (type_ties lib) (map building_type filtered)"

definition unit_distribution :: "library \<Rightarrow> building list \<Rightarrow> (float64 \<times> nat) list" where
  "unit_distribution lib filtered =
     sort_index (value_counts (unit_ties lib) (dropna (map tUNITS filtered)))"

section \<open>The map\<close>

text \<open>Python's \<^verbatim>\<open>str\<close> of a natural number, as the f-string of line 123 prints it.\<close>

definition digit_char :: "nat \<Rightarrow> char" where
  "digit_char d = ''0123456789'' ! d"

function str_nat :: "nat \<Rightarrow> string" where
  "str_nat n = (if n < 10 then [digit_char n] else str_nat (n div 10) @ [digit_char (n mod 10)])"
  by pat_completeness auto
termination
  by (relation "measure id") auto

declare str_nat.simps [simp del]

text \<open>
  The number a string of decimal digits denotes, to say which number a printed
  line shows: the digit \<^verbatim>\<open>0\<close> has the code 48.
\<close>

definition digit_value :: "char \<Rightarrow> nat" where
  "digit_value c = of_char c - 48"

definition nat_of_str :: "string \<Rightarrow> nat" where
  "nat_of_str s = foldl (\<lambda>a c. 10 * a + digit_value c) 0 s"

text \<open>
  \<^verbatim>\<open>DataFrame.sample(n)\<close> with the defaults \<^verbatim>\<open>replace=False\<close> and no weights asks
  numpy for \<^verbatim>\<open>choice(len, size=n, replace=False)\<close>, which is the first \<open>n\<close> entries
  of \<^verbatim>\<open>permutation(len)\<close>; pandas then takes the rows at these positions.
  \<^verbatim>\<open>permutation\<close> shuffles \<^verbatim>\<open>arange(len)\<close> in place: for \<open>i\<close> from \<open>len - 1\<close> down
  to 1 it draws a position \<open>j\<close> between 0 and \<open>i\<close> and exchanges the entries at
  \<open>i\<close> and \<open>j\<close>. Which position is drawn is the generator's choice; as
  \<open>random_draw\<close> ranges over all functions, \<open>random_interval lib i\<close> ranges over
  all positions between 0 and \<open>i\<close>.
  Asking for more rows than the frame holds raises \<^verbatim>\<open>ValueError\<close>.
\<close>

definition swap :: "'a list \<Rightarrow> nat \<Rightarrow> nat \<Rightarrow> 'a list" where
  "swap xs i j = xs[i := xs ! j, j := xs ! i]"

definition random_interval :: "library \<Rightarrow> nat \<Rightarrow> nat" where
  "random_interval lib i = random_draw lib i mod (i + 1)"

fun shuffle :: "library \<Rightarrow> nat \<Rightarrow> 'a list \<Rightarrow> 'a list" where
  "shuffle lib 0 xs = xs"
| "shuffle lib (Suc i) xs = shuffle lib i (swap xs (Suc i) (random_interval lib (Suc i)))"

definition permutation :: "library \<Rightarrow> nat \<Rightarrow> nat list" where
  "permutation lib n = shuffle lib (n - 1) [0..<n]"

definition choice :: "library \<Rightarrow> nat \<Rightarrow> nat \<Rightarrow> nat list" where
  "choice lib n k = take k (permutation lib n)"

definition sample :: "library \<Rightarrow> nat \<Rightarrow> 'a list \<Rightarrow> py_error + 'a list" where
  "sample lib n df =
     (if length df < n then Inl ValueError
      else Inr (map (\<lambda>i. df ! i) (choice lib (length df) n)))"

text \<open>A list of positions is a permutation of the positions of a frame of \<open>n\<close> rows.\<close>

definition is_permutation :: "nat list \<Rightarrow> nat \<Rightarrow> bool" where
  "is_permutation perm n = (distinct perm \<and> set perm = {0..<n})"

text \<open>Lines 123 to 129: the count line, the warning and the rows that are plotted.\<close>

record map_view =
  count_text :: string
  warning :: "string option"
  plotted :: "building list"

definition building_map :: "library \<Rightarrow> building list \<Rightarrow> py_error + map_view" where
  "building_map lib filtered =
     (let line = ''Number of buildings: '' @ str_nat (length filtered)
      in if 1000 < length filtered then
           (case sample lib 1000 filtered of
              Inl e \<Rightarrow> Inl e
            | Inr shown \<Rightarrow>
                Inr \<lparr>count_text = line,
                     warning = Some ''Too many buildings to display. Showing 1000 random buildings.'',
                     plotted = shown\<rparr>)
         else Inr \<lparr>count_text = line, warning = None, plotted = filtered\<rparr>)"

section \<open>The mapping token\<close>

text \<open>
  Lines 16 to 20. The configuration is the settings file \<^verbatim>\<open>.env\<close>, if there is
  one, and the process environment. \<^verbatim>\<open>load_dotenv\<close> adds the variables of the
  file that the environment does not define yet; \<^verbatim>\<open>os.environ[...]\<close> raises
  \<^verbatim>\<open>KeyError\<close> for a variable that is not defined.
\<close>

record config =
  env_file :: "(string \<rightharpoonup> string) option"
  environ :: "string \<rightharpoonup> string"

definition load_dotenv :: "(string \<rightharpoonup> string) \<Rightarrow> (string \<rightharpoonup> string) \<Rightarrow> (string \<rightharpoonup> string)" where
  "load_dotenv file env = file ++ env"

definition load_token :: "config \<Rightarrow> py_error + string option" where
  "load_token c =
     (case env_file c of
        None \<Rightarrow> Inr None
      | Some file \<Rightarrow>
          (case load_dotenv file (environ c) ''MAPBOX_TOKEN'' of
             None \<Rightarrow> Inl KeyError
           | Some t \<Rightarrow> Inr (Some t)))"

text \<open>Lines 130 to 133: \<^verbatim>\<open>if token\<close> is false for \<^verbatim>\<open>None\<close> and for the empty string.\<close>

datatype map_style = Basic string | Open_street_map

definition choose_style :: "string option \<Rightarrow> map_style" where
  "choose_style token =
     (case token of
        None \<Rightarrow> Open_street_map
      | Some t \<Rightarrow> if t = [] then Open_street_map else Basic t)"

section \<open>The unit slider\<close>

text \<open>
  Lines 41 to 46. Python's \<^verbatim>\<open>min\<close> and \<^verbatim>\<open>max\<close> walk through the column and keep
  the first value that no later one is below (above); on an empty column they
  raise \<^verbatim>\<open>ValueError\<close>. The slider refuses bounds that are equal, and whatever
  else the library refuses, with \<^verbatim>\<open>StreamlitAPIException\<close>; otherwise it returns
  the pair of handles the session holds.
\<close>

definition py_min :: "float64 list \<Rightarrow> py_error + float64" where
  "py_min col =
     (case col of
        [] \<Rightarrow> Inl ValueError
      | v # vs \<Rightarrow> Inr (foldl (\<lambda>best u. if float_lt u best then u else best) v vs))"

definition py_max :: "float64 list \<Rightarrow> py_error + float64" where
  "py_max col =
     (case col of
        [] \<Rightarrow> Inl ValueError
      | v # vs \<Rightarrow> Inr (foldl (\<lambda>best u. if float_lt best u then u else best) v vs))"

definition slider :: "library \<Rightarrow> float64 \<Rightarrow> float64 \<Rightarrow> float64 \<times> float64 \<Rightarrow> py_error + float64 \<times> float64" where
  "slider lib min_value max_value handles =
     (if float_eq min_value max_value \<or> slider_rejects lib min_value max_value
      then Inl StreamlitAPIException
      else Inr handles)"

section \<open>One render\<close>

text \<open>
  \<^verbatim>\<open>main\<close> from the token to the map, for a table that is already loaded and
  normalised and for the widget values \<open>p\<close> that the session holds on this
  render.
\<close>

record page =
  type_chart :: "(string \<times> nat) list"
  unit_chart :: "(float64 \<times> nat) list"
  map_chart :: map_view
  style :: map_style

definition main :: "library \<Rightarrow> config \<Rightarrow> building list \<Rightarrow> filters \<Rightarrow> py_error + page" where
  "main lib c data p =
     (case load_token c of
        Inl e \<Rightarrow> Inl e
      | Inr token \<Rightarrow>
     (case py_min (map tUNITS data) of
        Inl e \<Rightarrow> Inl e
      | Inr min_value \<Rightarrow>
     (case py_max (map tUNITS data) of
        Inl e \<Rightarrow> Inl e
      | Inr max_value \<Rightarrow>
     (case slider lib min_value max_value (selected_units p) of
        Inl e \<Rightarrow> Inl e
      | Inr units \<Rightarrow>
     (case filter_records lib data (p\<lparr>selected_units := units\<rparr>) of
        Inl e \<Rightarrow> Inl e
      | Inr filtered \<Rightarrow>
     (case building_map lib filtered of
        Inl e \<Rightarrow> Inl e
      | Inr view \<Rightarrow>
          Inr \<lparr>type_chart = filtered_counts lib filtered,
               unit_chart = unit_distribution lib filtered,
               map_chart = view,
               style = choose_style token\<rparr>))))))"

section \<open>Sample inputs\<close>

text \<open>
  The two records of the scenarios in the specification, the widget values of
  its first scenario, a table of pairwise different records, and one value
  for the choices of the libraries (the patterns used with it below are all
  modelled).
\<close>

definition record_a :: building where
  "record_a = \<lparr>tUNITS = Fin 2, vacant = True, zipcode_str = ''02139'',
                building_type = ''A'', coord_x = Fin 1, coord_y = Fin 1\<rparr>"

definition record_b :: building where
  "record_b = \<lparr>tUNITS = Fin 5, vacant = False, zipcode_str = ''02140'',
                building_type = ''B'', coord_x = Fin 2, coord_y = Fin 2\<rparr>"

definition widgets :: "string \<Rightarrow> string \<Rightarrow> string list \<Rightarrow> filters" where
  "widgets zipcode vacancy types =
     \<lparr>selected_units = (Fin 0, Fin 10), selected_zipcode = zipcode,
      selected_vacant = vacancy, selected_building_types = types\<rparr>"


definition numbered :: "nat \<Rightarrow> building list" where
  "numbered n = map (\<lambda>i. record_a\<lparr>tUNITS := Fin (real i)\<rparr>) [0..<n]"

definition sample_lib :: library where
  "sample_lib =
     \<lparr>compiles_first = True, other_patterns = (\<lambda>pat. Inl PatternError),
      type_ties = (\<lambda>a b. True), unit_ties = (\<lambda>a b. True),
      slider_rejects = (\<lambda>lo hi. False), random_draw = (\<lambda>i. i * i + 7)\<rparr>"

section \<open>Properties of the filter\<close>

lemma zip_same_columns:
  "zip (map f xs) (map g xs) = map (\<lambda>x. (f x, g x)) xs"
  by (induction xs) simp_all

lemma mask_and_map:
  "mask_and (map P xs) (map Q xs) = map (\<lambda>x. P x \<and> Q x) xs"
  by (simp add: mask_and_def zip_same_columns)

lemma select_rows_map:
  "select_rows xs (map P xs) = filter P xs"
  unfolding select_rows_def by (induction xs) simp_all

lemma filter_records_compiled:
  assumes "re_compile (other_patterns lib) (selected_zipcode p) = Inr m"
  shows "filter_records lib data p = Inr (filter (satisfies m p) data)"
proof -
  have sat: "satisfies m p =
      (\<lambda>r. (((float_ge (tUNITS r) (fst (selected_units p)) \<and> float_le (tUNITS r) (snd (selected_units p)))
             \<and> building_type r \<in> set (selected_building_types p))
             \<and> m (zipcode_str r))
             \<and> (selected_vacant p = ''All'' \<or> vacant r = (selected_vacant p = ''Vacant'')))"
    by (auto simp: satisfies_def unit_in_range_def type_selected_def vacancy_ok_def
        float_ge_def fun_eq_iff)
  show ?thesis
    using assms
    by (simp add: filter_records_def str_contains_def series_ge_def series_le_def isin_def
        series_eq_def scalar_or_def mask_and_map select_rows_map sat o_def)
qed

lemma filter_records_refused:
  assumes "re_compile (other_patterns lib) (selected_zipcode p) = Inl e"
  shows "filter_records lib data p =
           (if data = [] \<and> \<not> compiles_first lib then Inr [] else Inl e)"
  using assms
  by (simp add: filter_records_def str_contains_def series_ge_def series_le_def isin_def
      series_eq_def scalar_or_def mask_and_def select_rows_def)

lemma filter_records_cases:
  "filter_records lib data p =
     (case re_compile (other_patterns lib) (selected_zipcode p) of
        Inl e \<Rightarrow> if data = [] \<and> \<not> compiles_first lib then Inr [] else Inl e
      | Inr m \<Rightarrow> Inr (filter (satisfies m p) data))"
  by (simp add: filter_records_compiled filter_records_refused split: sum.split)

lemma filter_records_result:
  assumes "filter_records lib data p = Inr res"
  shows "(\<exists>m. re_compile (other_patterns lib) (selected_zipcode p) = Inr m \<and>
              res = filter (satisfies m p) data) \<or>
         (data = [] \<and> res = [])"
  using assms by (auto simp: filter_records_cases split: sum.splits if_splits)

lemma re_compile_repeat:
  "c \<in> set ''*+?'' \<Longrightarrow> re_compile other (c # pat) = Inl PatternError"
  by (auto simp: re_compile_def plain_pattern_def re_special_def)

lemma re_compile_empty: "re_compile other [] = Inr (re_search [])"
  by (simp add: re_compile_def plain_pattern_def)

lemma filter_records_no_nan:
  assumes "filter_records lib data p = Inr res"
  shows "\<forall>r\<in>set res. tUNITS r \<noteq> NaN"
  using filter_records_result [OF assms]
  by (auto simp: satisfies_def unit_in_range_def)


subsection \<open>The filter on a text that compiles\<close>

text \<open>
  Whenever the zipcode text compiles, the filter returns, its result holds only
  rows of the table, and a row of the table is in the result exactly when the
  four predicates hold of it; with no building type selected the result is
  empty.
\<close>

lemma filter_result_exact:
  assumes "re_compile (other_patterns lib) (selected_zipcode p) = Inr m"
  shows "\<exists>res. filter_records lib data p = Inr res \<and> set res \<subseteq> set data \<and>
           (\<forall>r. r \<in> set res \<longleftrightarrow>
                r \<in> set data \<and> unit_in_range p r \<and> type_selected p r \<and>
                m (zipcode_str r) \<and> vacancy_ok p r)"
  by (auto simp: filter_records_compiled [OF assms] satisfies_def)

lemma filter_no_types:
  assumes "re_compile (other_patterns lib) (selected_zipcode p) = Inr m"
    and "selected_building_types p = []"
  shows "filter_records lib data p = Inr []"
  using assms(2) by (simp add: filter_records_compiled [OF assms(1)] satisfies_def type_selected_def)

subsection \<open>The zipcode text as a pattern\<close>

lemma match_here_iff:
  "match_here as s \<longleftrightarrow> (\<exists>mid suf. s = mid @ suf \<and> list_all2 atom_matches as mid)"
proof (induction as s rule: match_here.induct)
  case (1 s)
  then show ?case by simp
next
  case (2 a as)
  then show ?case by (simp add: list_all2_Cons1)
next
  case (3 a as c cs)
  show ?case
  proof
    assume "match_here (a # as) (c # cs)"
    then obtain mid suf where "atom_matches a c" "cs = mid @ suf" "list_all2 atom_matches as mid"
      using "3.IH" by auto
    then have "c # cs = (c # mid) @ suf \<and> list_all2 atom_matches (a # as) (c # mid)"
      by simp
    then show "\<exists>mid suf. c # cs = mid @ suf \<and> list_all2 atom_matches (a # as) mid"
      by blast
  next
    assume "\<exists>mid suf. c # cs = mid @ suf \<and> list_all2 atom_matches (a # as) mid"
    then obtain mid suf where ms: "c # cs = mid @ suf" "list_all2 atom_matches (a # as) mid"
      by blast
    then obtain d ds where mid: "mid = d # ds" "atom_matches a d" "list_all2 atom_matches as ds"
      by (auto simp: list_all2_Cons1)
    with ms have "d = c" "cs = ds @ suf" by simp_all
    with mid show "match_here (a # as) (c # cs)"
      using "3.IH" by auto
  qed
qed

lemma re_search_iff:
  "re_search as s \<longleftrightarrow> (\<exists>pre suf. s = pre @ suf \<and> match_here as suf)"
proof (induction s)
  case Nil
  then show ?case by simp
next
  case (Cons c cs)
  show ?case
  proof
    assume "re_search as (c # cs)"
    then consider "match_here as (c # cs)" | "re_search as cs" by auto
    then show "\<exists>pre suf. c # cs = pre @ suf \<and> match_here as suf"
    proof cases
      case 1
      then have "c # cs = [] @ (c # cs) \<and> match_here as (c # cs)" by simp
      then show ?thesis by blast
    next
      case 2
      then obtain pre suf where "cs = pre @ suf" "match_here as suf"
        using Cons.IH by blast
      then have "c # cs = (c # pre) @ suf \<and> match_here as suf" by simp
      then show ?thesis by blast
    qed
  next
    assume "\<exists>pre suf. c # cs = pre @ suf \<and> match_here as suf"
    then obtain pre suf where ps: "c # cs = pre @ suf" "match_here as suf" by blast
    show "re_search as (c # cs)"
    proof (cases pre)
      case Nil
      with ps have "match_here as (c # cs)" by simp
      then show ?thesis by simp
    next
      case (Cons d ds)
      with ps have "cs = ds @ suf" by simp
      with ps(2) have "re_search as cs" using Cons.IH by blast
      then show ?thesis by simp
    qed
  qed
qed

lemma re_search_occurs:
  "re_search (map to_atom pat) s = pattern_occurs pat s"
proof -
  have "re_search (map to_atom pat) s \<longleftrightarrow>
        (\<exists>pre mid suf. s = pre @ mid @ suf \<and> list_all2 atom_matches (map to_atom pat) mid)"
    by (simp add: re_search_iff match_here_iff) blast
  then show ?thesis by (simp add: pattern_occurs_def)
qed

lemma literal_atoms:
  assumes "\<forall>c\<in>set pat. c \<notin> set re_special"
  shows "list_all2 atom_matches (map to_atom pat) mid \<longleftrightarrow> mid = pat"
  using assms
proof (induction pat arbitrary: mid)
  case Nil
  then show ?case by simp
next
  case (Cons c cs)
  then have "c \<noteq> CHR ''.''" by (auto simp: re_special_def)
  then have "to_atom c = Lit c" by (simp add: to_atom_def)
  with Cons show ?case
    by (cases mid) auto
qed

lemma literal_occurs:
  assumes "\<forall>c\<in>set pat. c \<notin> set re_special"
  shows "pattern_occurs pat s = is_substring pat s"
  by (simp add: pattern_occurs_def is_substring_def literal_atoms [OF assms])

lemma literal_plain:
  assumes "\<forall>c\<in>set pat. c \<notin> set re_special"
  shows "plain_pattern pat"
  using assms by (simp add: plain_pattern_def list_all_iff)

lemma str_contains_plain:
  assumes "plain_pattern pat"
  shows "str_contains lib pat col = Inr (map (pattern_occurs pat) col)"
proof -
  have "re_search (map to_atom pat) = pattern_occurs pat"
    by (rule ext) (rule re_search_occurs)
  then show ?thesis
    using assms by (simp add: str_contains_def re_compile_def)
qed

text \<open>
  On a text without operator characters the predicate of the code is the
  substring test of the specification.
\<close>

lemma str_contains_literal:
  assumes "\<forall>c\<in>set pat. c \<notin> set re_special"
  shows "str_contains lib pat col = Inr (map (is_substring pat) col)"
proof -
  have "pattern_occurs pat = is_substring pat"
    by (intro ext literal_occurs assms)
  then show ?thesis
    using str_contains_plain [OF literal_plain [OF assms]] by simp
qed

lemma is_substring_search:
  "is_substring sub s = re_search (map Lit sub) s"
proof -
  have "list_all2 atom_matches (map Lit sub) mid \<longleftrightarrow> mid = sub" for mid
    by (induction sub arbitrary: mid) (auto simp: list_all2_Cons1)
  then show ?thesis
    by (simp add: is_substring_def re_search_iff match_here_iff) blast
qed

lemma scenario_all:
  "filter_records lib [record_a, record_b, record_a] (widgets '''' ''All'' [''A'', ''B''])
     = Inr [record_a, record_b, record_a]"
proof -
  have "re_compile (other_patterns lib) (selected_zipcode (widgets '''' ''All'' [''A'', ''B''])) = Inr (re_search [])"
    by (simp add: widgets_def re_compile_empty)
  then show ?thesis
    by (simp add: filter_records_compiled widgets_def satisfies_def
        unit_in_range_def type_selected_def vacancy_ok_def record_a_def record_b_def)
qed

lemma scenario_vacant:
  "filter_records lib [record_a, record_b] (widgets '''' ''Vacant'' [''A'', ''B'']) = Inr [record_a]"
proof -
  have "re_compile (other_patterns lib) (selected_zipcode (widgets '''' ''Vacant'' [''A'', ''B''])) = Inr (re_search [])"
    by (simp add: widgets_def re_compile_empty)
  then show ?thesis
    by (simp add: filter_records_compiled widgets_def satisfies_def
        unit_in_range_def type_selected_def vacancy_ok_def record_a_def record_b_def)
qed

lemma scenario_zipcode:
  "filter_records lib [record_a, record_b] (widgets ''0213'' ''All'' [''A'', ''B'']) = Inr [record_a]"
proof -
  have "re_compile (other_patterns lib) (selected_zipcode (widgets ''0213'' ''All'' [''A'', ''B'']))
          = Inr (re_search (map to_atom ''0213''))"
    by (simp add: widgets_def re_compile_def plain_pattern_def re_special_def)
  then show ?thesis
    by (simp add: filter_records_compiled widgets_def satisfies_def to_atom_def
        unit_in_range_def type_selected_def vacancy_ok_def record_a_def record_b_def)
qed

subsection \<open>Where the filter departs from its contract\<close>

text \<open>
  Claim C1 at an input where the code departs from it. With the text \<^verbatim>\<open>*\<close> in
  the zipcode box and the two records of the scenarios in the table, the filter
  does not return the subset of the records that satisfy the four predicates:
  the expression of lines 72 to 81 raises, whatever the libraries choose.
\<close>

theorem filter_raises_on_operator:
  "filter_records lib [record_a, record_b] (widgets ''*'' ''All'' [''A'', ''B'']) = Inl PatternError"
  by (simp add: filter_records_cases widgets_def re_compile_repeat)

text \<open>
  Claim C2 at an input where the code departs from it. The text \<^verbatim>\<open>0.1\<close> occurs
  in neither zipcode of the scenarios, yet the filter selects both records: the
  dot is read as an operator, not as a character.
\<close>

theorem zipcode_dot_selected:
  "filter_records lib [record_a, record_b] (widgets ''0.1'' ''All'' [''A'', ''B''])
     = Inr [record_a, record_b] \<and>
   \<not> is_substring ''0.1'' (zipcode_str record_a) \<and>
   \<not> is_substring ''0.1'' (zipcode_str record_b)"
proof -
  have "re_compile (other_patterns lib) (selected_zipcode (widgets ''0.1'' ''All'' [''A'', ''B'']))
          = Inr (re_search (map to_atom ''0.1''))"
    by (simp add: widgets_def re_compile_def plain_pattern_def re_special_def)
  then have "filter_records lib [record_a, record_b] (widgets ''0.1'' ''All'' [''A'', ''B''])
               = Inr [record_a, record_b]"
    by (simp add: filter_records_compiled widgets_def satisfies_def to_atom_def
        unit_in_range_def type_selected_def vacancy_ok_def record_a_def record_b_def)
  then show ?thesis
    by (simp add: is_substring_search record_a_def record_b_def)
qed

text \<open>
  Claim C5 at an input where the code departs from it. With no building type
  selected and the text \<^verbatim>\<open>?\<close> in the zipcode box the filter has no empty result:
  it raises, whatever the libraries choose.
\<close>

theorem empty_types_raises:
  "filter_records lib [record_a, record_b] (widgets ''?'' ''All'' []) = Inl PatternError"
  by (simp add: filter_records_cases widgets_def re_compile_repeat)

subsection \<open>Boundaries of the filter\<close>



subsection \<open>Idempotence\<close>

text \<open>
  Claim C7. The filter is idempotent: applied to its own output with the same
  widget values it returns that output again, the same rows in the same order,
  hence the same set of records.
\<close>

theorem filter_idempotent:
  assumes "filter_records lib data p = Inr res"
  shows "filter_records lib res p = Inr res"
proof -
  from filter_records_result [OF assms]
  consider m where "re_compile (other_patterns lib) (selected_zipcode p) = Inr m"
      and "res = filter (satisfies m p) data"
    | "data = []" and "res = []"
    by blast
  then show ?thesis
  proof cases
    case 1
    then show ?thesis
      by (simp add: filter_records_compiled [OF 1(1)])
  next
    case 2
    with assms show ?thesis by simp
  qed
qed

theorem filter_idempotent_witness:
  "filter_records sample_lib [record_a] (widgets '''' ''Vacant'' [''A'', ''B'']) = Inr [record_a]"
  by (rule filter_idempotent [OF scenario_vacant])

section \<open>Properties of the unit distribution\<close>

lemma float_le_total: "a \<noteq> NaN \<Longrightarrow> b \<noteq> NaN \<Longrightarrow> float_le a b \<or> float_le b a"
  by (cases a; cases b) auto

lemma float_le_trans: "float_le a b \<Longrightarrow> float_le b c \<Longrightarrow> float_le a c"
  by (cases a; cases b; cases c) auto

lemma float_le_antisym: "float_le a b \<Longrightarrow> float_le b a \<Longrightarrow> a = b"
  by (cases a; cases b) auto

lemma float_lt_trans: "float_lt a b \<Longrightarrow> float_lt b c \<Longrightarrow> float_lt a c"
  unfolding float_lt_def using float_le_trans float_le_antisym by blast

lemma set_insort_count: "set (insort_count tie e es) = insert e (set es)"
  by (induction es) auto

lemma set_foldr_insort_count: "set (foldr (insort_count tie) es []) = set es"
  by (induction es) (simp_all add: set_insort_count)

lemma set_value_counts:
  "set (value_counts tie vs) = (\<lambda>k. (k, count_list vs k)) ` set vs"
  by (simp add: value_counts_def uniques_def set_foldr_insort_count)

lemma distinct_insort_count:
  "distinct (map fst (insort_count tie e es)) = distinct (map fst (e # es))"
  by (induction es) (auto simp: set_insort_count)

lemma distinct_foldr_insort_count:
  "distinct (map fst (foldr (insort_count tie) es [])) = distinct (map fst es)"
  by (induction es) (simp_all add: distinct_insort_count set_foldr_insort_count)

lemma distinct_value_counts: "distinct (map fst (value_counts tie vs))"
proof -
  have "map fst (map (\<lambda>k. (k, count_list vs k)) (uniques vs)) = uniques vs"
    by (simp add: o_def)
  moreover have "distinct (uniques vs)"
    by (simp add: uniques_def)
  ultimately show ?thesis
    by (simp add: value_counts_def distinct_foldr_insort_count)
qed

lemma set_insort_index: "set (insort_index e es) = insert e (set es)"
  by (induction es) auto

lemma set_sort_index: "set (sort_index es) = set es"
  unfolding sort_index_def by (induction es) (simp_all add: set_insort_index)

lemma sorted_insort_index:
  assumes "sorted_wrt float_lt (map fst es)"
    and "fst e \<notin> fst ` set es"
    and "fst e \<noteq> NaN" and "\<forall>f\<in>set es. fst f \<noteq> NaN"
  shows "sorted_wrt float_lt (map fst (insort_index e es))"
  using assms
proof (induction es)
  case Nil
  then show ?case by simp
next
  case (Cons f fs)
  show ?case
  proof (cases "index_le (fst e) (fst f)")
    case True
    with Cons.prems have ef: "float_lt (fst e) (fst f)"
      by (auto simp: index_le_def float_lt_def)
    have "\<forall>g\<in>set fs. float_lt (fst e) (fst g)"
      using Cons.prems(1) ef float_lt_trans by auto
    with True ef Cons.prems(1) show ?thesis by simp
  next
    case False
    with Cons.prems have "\<not> float_le (fst e) (fst f)"
      by (simp add: index_le_def)
    with Cons.prems have fe: "float_lt (fst f) (fst e)"
      using float_le_total [of "fst e" "fst f"] by (auto simp: float_lt_def)
    have "sorted_wrt float_lt (map fst (insort_index e fs))"
      using Cons by simp
    moreover have "\<forall>g\<in>set (insort_index e fs). float_lt (fst f) (fst g)"
      using Cons.prems(1) fe by (auto simp: set_insort_index)
    ultimately show ?thesis
      using False by simp
  qed
qed

lemma sorted_sort_index:
  assumes "distinct (map fst es)" and "\<forall>f\<in>set es. fst f \<noteq> NaN"
  shows "sorted_wrt float_lt (map fst (sort_index es))"
  using assms
proof (induction es)
  case Nil
  then show ?case by (simp add: sort_index_def)
next
  case (Cons e es)
  have step: "sort_index (e # es) = insort_index e (sort_index es)"
    by (simp add: sort_index_def)
  have "sorted_wrt float_lt (map fst (sort_index es))"
    using Cons by simp
  moreover have "fst e \<notin> fst ` set (sort_index es)"
    using Cons.prems(1) by (simp add: set_sort_index)
  moreover have "\<forall>f\<in>set (sort_index es). fst f \<noteq> NaN"
    using Cons.prems(2) by (simp add: set_sort_index)
  ultimately show ?case
    using Cons.prems(2) by (simp add: step sorted_insort_index)
qed

lemma count_list_column:
  "count_list (map f xs) k = length (filter (\<lambda>r. f r = k) xs)"
  by (induction xs) simp_all

lemma dropna_clean:
  assumes "\<forall>r\<in>set xs. tUNITS r \<noteq> NaN"
  shows "dropna (map tUNITS xs) = map tUNITS xs"
  using assms by (induction xs) (simp_all add: dropna_def)

lemma unit_distribution_clean:
  assumes "\<forall>r\<in>set xs. tUNITS r \<noteq> NaN"
  shows "sorted_wrt float_lt (map fst (unit_distribution lib xs))"
    and "set (unit_distribution lib xs) =
           (\<lambda>k. (k, length (filter (\<lambda>r. tUNITS r = k) xs))) ` (tUNITS ` set xs)"
proof -
  have u: "unit_distribution lib xs = sort_index (value_counts (unit_ties lib) (map tUNITS xs))"
    by (simp add: unit_distribution_def dropna_clean [OF assms])
  have keys: "\<forall>f\<in>set (value_counts (unit_ties lib) (map tUNITS xs)). fst f \<noteq> NaN"
    using assms by (auto simp: set_value_counts)
  show "sorted_wrt float_lt (map fst (unit_distribution lib xs))"
    unfolding u by (rule sorted_sort_index [OF distinct_value_counts keys])
  show "set (unit_distribution lib xs) =
           (\<lambda>k. (k, length (filter (\<lambda>r. tUNITS r = k) xs))) ` (tUNITS ` set xs)"
    unfolding u by (simp add: set_sort_index set_value_counts count_list_column)
qed

lemma unit_distribution_scenario:
  "unit_distribution lib [record_a, record_b, record_a] = [(Fin 2, 2), (Fin 5, 1)]"
  by (simp add: unit_distribution_def sort_index_def value_counts_def uniques_def dropna_def
      index_le_def record_a_def record_b_def)

text \<open>
  Claim C8. For every result of the filter, the unit distribution has one
  entry for every unit count that occurs in the result and no other entry, the
  entry of a unit count holds the number of rows with exactly that unit count,
  and the entries are listed by strictly rising unit count.
\<close>

theorem unit_distribution_exact:
  assumes "filter_records lib data p = Inr filtered"
  shows "sorted_wrt float_lt (map fst (unit_distribution lib filtered)) \<and>
         set (unit_distribution lib filtered) =
           (\<lambda>k. (k, length (filter (\<lambda>r. tUNITS r = k) filtered))) ` (tUNITS ` set filtered)"
  using unit_distribution_clean [OF filter_records_no_nan [OF assms]] by blast

theorem unit_distribution_exact_witness:
  "sorted_wrt float_lt (map fst (unit_distribution sample_lib [record_a, record_b, record_a])) \<and>
   set (unit_distribution sample_lib [record_a, record_b, record_a]) =
     (\<lambda>k. (k, length (filter (\<lambda>r. tUNITS r = k) [record_a, record_b, record_a]))) `
       (tUNITS ` set [record_a, record_b, record_a])"
  by (rule unit_distribution_exact [OF scenario_all])

section \<open>Properties of the map\<close>

subsection \<open>The count line\<close>

lemma digit_value_char:
  assumes "d < 10"
  shows "digit_value (digit_char d) = d"
proof -
  from assms have "d \<in> {0, 1, 2, 3, 4, 5, 6, 7, 8, 9}" by auto
  then show ?thesis
    by (auto simp: digit_value_def digit_char_def)
qed

lemma nat_of_str_nat: "nat_of_str (str_nat n) = n"
proof (induction n rule: str_nat.induct)
  case (1 n)
  show ?case
  proof (cases "n < 10")
    case True
    then show ?thesis
      by (simp add: str_nat.simps [of n] nat_of_str_def digit_value_char)
  next
    case False
    then have "nat_of_str (str_nat (n div 10)) = n div 10"
      using 1 by simp
    with False show ?thesis
      by (simp add: str_nat.simps [of n] nat_of_str_def digit_value_char)
  qed
qed

lemma str_nat_inj: "str_nat m = str_nat n \<Longrightarrow> m = n"
  by (metis nat_of_str_nat)

lemma digit_char_digit: "d < 10 \<Longrightarrow> digit_char d \<in> set ''0123456789''"
proof -
  assume "d < 10"
  then have "d < length ''0123456789''" by simp
  then have "''0123456789'' ! d \<in> set ''0123456789''" by (rule nth_mem)
  then show ?thesis by (simp only: digit_char_def)
qed

lemma str_nat_digits: "str_nat n \<noteq> [] \<and> set (str_nat n) \<subseteq> set ''0123456789''"
proof (induction n rule: str_nat.induct)
  case (1 n)
  show ?case
  proof (cases "n < 10")
    case True
    then show ?thesis
      using digit_char_digit [of n] by (simp add: str_nat.simps [of n])
  next
    case False
    then have "set (str_nat (n div 10)) \<subseteq> set ''0123456789''"
      using 1 by simp
    moreover have "digit_char (n mod 10) \<in> set ''0123456789''"
      by (rule digit_char_digit) simp
    ultimately show ?thesis
      using False by (simp add: str_nat.simps [of n])
  qed
qed

subsection \<open>The draw\<close>

lemma length_swap: "length (swap xs i j) = length xs"
  by (simp add: swap_def)

lemma swap_rearranges:
  assumes "i < length xs" and "j < length xs"
  shows "set (swap xs i j) = set xs" and "distinct (swap xs i j) = distinct xs"
  using assms by (simp_all add: swap_def)

lemma random_interval_bound: "random_interval lib i < Suc i"
  by (simp add: random_interval_def)

lemma shuffle_rearranges:
  assumes "i \<le> length xs - 1"
  shows "length (shuffle lib i xs) = length xs \<and>
         set (shuffle lib i xs) = set xs \<and>
         distinct (shuffle lib i xs) = distinct xs"
  using assms
proof (induction i arbitrary: xs)
  case 0
  then show ?case by simp
next
  case (Suc i)
  let ?j = "random_interval lib (Suc i)"
  let ?ys = "swap xs (Suc i) ?j"
  from Suc.prems have i: "Suc i < length xs" by simp
  have "?j < Suc (Suc i)" by (rule random_interval_bound)
  with i have j: "?j < length xs" by simp
  have "i \<le> length ?ys - 1"
    using i by (simp add: length_swap)
  from Suc.IH [OF this] show ?case
    by (simp add: length_swap swap_rearranges [OF i j])
qed

lemma permutation_is_permutation: "is_permutation (permutation lib n) n"
proof -
  have "n - 1 \<le> length [0..<n] - 1" by simp
  from shuffle_rearranges [OF this, of lib] show ?thesis
    by (simp add: is_permutation_def permutation_def)
qed

lemma permutation_length:
  assumes "is_permutation perm n"
  shows "length perm = n"
proof -
  from assms have d: "distinct perm" and s: "set perm = {0..<n}"
    by (simp_all add: is_permutation_def)
  have "length perm = card (set perm)"
    using d by (simp add: distinct_card)
  also have "\<dots> = n"
    using s by simp
  finally show ?thesis .
qed

lemma choice_props:
  assumes "k \<le> n"
  shows "length (choice lib n k) = k"
    and "distinct (choice lib n k)"
    and "set (choice lib n k) \<subseteq> {0..<n}"
proof -
  note perm = permutation_is_permutation [of lib n]
  show "length (choice lib n k) = k"
    using assms permutation_length [OF perm] by (simp add: choice_def)
  show "distinct (choice lib n k)"
    using perm by (simp add: choice_def is_permutation_def)
  have "set (take k (permutation lib n)) \<subseteq> set (permutation lib n)"
    by (rule set_take_subset)
  then show "set (choice lib n k) \<subseteq> {0..<n}"
    using perm by (simp add: choice_def is_permutation_def)
qed

lemma rows_at_positions:
  assumes "set ps \<subseteq> {0..<length df}"
  shows "set (map (\<lambda>i. df ! i) ps) \<subseteq> set df"
  using assms by auto

lemma distinct_rows_at_positions:
  assumes "distinct df" and "distinct ps" and "set ps \<subseteq> {0..<length df}"
  shows "distinct (map (\<lambda>i. df ! i) ps)"
proof -
  have "inj_on (\<lambda>i. df ! i) (set ps)"
  proof (rule inj_onI)
    fix i j
    assume ij: "i \<in> set ps" "j \<in> set ps" "df ! i = df ! j"
    with assms(3) have "i < length df" "j < length df" by auto
    with ij(3) show "i = j"
      using assms(1) by (simp add: nth_eq_iff_index_eq)
  qed
  then show ?thesis
    using assms(2) by (simp add: distinct_map)
qed

subsection \<open>The plotted rows\<close>

lemma building_map_capped:
  assumes "1000 < length filtered"
  shows "building_map lib filtered =
           Inr \<lparr>count_text = ''Number of buildings: '' @ str_nat (length filtered),
                warning = Some ''Too many buildings to display. Showing 1000 random buildings.'',
                plotted = map (\<lambda>i. filtered ! i) (choice lib (length filtered) 1000)\<rparr>"
  using assms by (simp add: building_map_def sample_def Let_def)

lemma building_map_whole:
  assumes "length filtered \<le> 1000"
  shows "building_map lib filtered =
           Inr \<lparr>count_text = ''Number of buildings: '' @ str_nat (length filtered),
                warning = None, plotted = filtered\<rparr>"
  using assms by (simp add: building_map_def Let_def)

lemma length_numbered: "length (numbered n) = n"
  by (simp add: numbered_def)

lemma distinct_numbered: "distinct (numbered n)"
  by (simp add: numbered_def distinct_map inj_on_def record_a_def)

text \<open>
  Claim C3. The map section always returns. Its count line is the fixed text
  followed by decimal digits that denote the number of rows of the whole
  result of the filter, also when the cap applies. For a result with more than
  1000 rows the map plots exactly 1000 rows, each of them a row of the result,
  under the warning; for a result of at most 1000 rows it plots the whole
  result and there is no warning.
\<close>

theorem display_cap:
  "\<exists>view digits.
     building_map lib filtered = Inr view \<and>
     count_text view = ''Number of buildings: '' @ digits \<and>
     digits \<noteq> [] \<and> set digits \<subseteq> set ''0123456789'' \<and>
     nat_of_str digits = length filtered \<and>
     (1000 < length filtered \<longrightarrow>
        length (plotted view) = 1000 \<and> set (plotted view) \<subseteq> set filtered \<and>
        warning view = Some ''Too many buildings to display. Showing 1000 random buildings.'') \<and>
     (length filtered \<le> 1000 \<longrightarrow> plotted view = filtered \<and> warning view = None)"
proof -
  let ?digits = "str_nat (length filtered)"
  have digits: "?digits \<noteq> []" "set ?digits \<subseteq> set ''0123456789''"
      "nat_of_str ?digits = length filtered"
    using str_nat_digits [of "length filtered"] nat_of_str_nat [of "length filtered"]
    by blast+
  show ?thesis
  proof (cases "1000 < length filtered")
    case True
    let ?ps = "choice lib (length filtered) 1000"
    let ?view = "\<lparr>count_text = ''Number of buildings: '' @ ?digits,
                  warning = Some ''Too many buildings to display. Showing 1000 random buildings.'',
                  plotted = map (\<lambda>i. filtered ! i) ?ps\<rparr>"
    have le: "1000 \<le> length filtered" using True by simp
    have run: "building_map lib filtered = Inr ?view"
      by (rule building_map_capped [OF True])
    have len: "length (map (\<lambda>i. filtered ! i) ?ps) = 1000"
      using choice_props(1) [OF le, of lib] by simp
    have sub: "set (map (\<lambda>i. filtered ! i) ?ps) \<subseteq> set filtered"
      by (rule rows_at_positions [OF choice_props(3) [OF le, of lib]])
    have "building_map lib filtered = Inr ?view \<and>
          count_text ?view = ''Number of buildings: '' @ ?digits \<and>
          ?digits \<noteq> [] \<and> set ?digits \<subseteq> set ''0123456789'' \<and>
          nat_of_str ?digits = length filtered \<and>
          (1000 < length filtered \<longrightarrow>
             length (plotted ?view) = 1000 \<and> set (plotted ?view) \<subseteq> set filtered \<and>
             warning ?view = Some ''Too many buildings to display. Showing 1000 random buildings.'') \<and>
          (length filtered \<le> 1000 \<longrightarrow> plotted ?view = filtered \<and> warning ?view = None)"
      using run digits len sub True by simp
    then show ?thesis by (intro exI)
  next
    case False
    let ?view = "\<lparr>count_text = ''Number of buildings: '' @ ?digits,
                  warning = None, plotted = filtered\<rparr>"
    from False have le: "length filtered \<le> 1000" by simp
    have run: "building_map lib filtered = Inr ?view"
      by (rule building_map_whole [OF le])
    have "building_map lib filtered = Inr ?view \<and>
          count_text ?view = ''Number of buildings: '' @ ?digits \<and>
          ?digits \<noteq> [] \<and> set ?digits \<subseteq> set ''0123456789'' \<and>
          nat_of_str ?digits = length filtered \<and>
          (1000 < length filtered \<longrightarrow>
             length (plotted ?view) = 1000 \<and> set (plotted ?view) \<subseteq> set filtered \<and>
             warning ?view = Some ''Too many buildings to display. Showing 1000 random buildings.'') \<and>
          (length filtered \<le> 1000 \<longrightarrow> plotted ?view = filtered \<and> warning ?view = None)"
      using run digits False by simp
    then show ?thesis by (intro exI)
  qed
qed

theorem display_cap_witness:
  "(\<exists>view. building_map sample_lib (numbered 1001) = Inr view \<and>
      count_text view = ''Number of buildings: 1001'' \<and>
      length (plotted view) = 1000 \<and> set (plotted view) \<subseteq> set (numbered 1001) \<and>
      warning view = Some ''Too many buildings to display. Showing 1000 random buildings.'') \<and>
   (\<exists>view. building_map sample_lib [record_a, record_b] = Inr view \<and>
      count_text view = ''Number of buildings: 2'' \<and>
      plotted view = [record_a, record_b] \<and> warning view = None)"
proof -
  have n1: "str_nat 1001 = ''1001''" and n2: "str_nat (Suc (Suc 0)) = ''2''"
    by (simp_all add: str_nat.simps digit_char_def)
  have big: "1000 < length (numbered 1001)"
    by (simp add: length_numbered)
  obtain v1 d1 where v1: "building_map sample_lib (numbered 1001) = Inr v1"
      "count_text v1 = ''Number of buildings: '' @ d1"
      "length (plotted v1) = 1000" "set (plotted v1) \<subseteq> set (numbered 1001)"
      "warning v1 = Some ''Too many buildings to display. Showing 1000 random buildings.''"
    using display_cap [of sample_lib "numbered 1001"] big by blast
  have t1: "count_text v1 = ''Number of buildings: 1001''"
    using v1(1) building_map_capped [OF big, of sample_lib] n1
    by (auto simp: length_numbered)
  obtain v2 d2 where v2: "building_map sample_lib [record_a, record_b] = Inr v2"
      "count_text v2 = ''Number of buildings: '' @ d2"
      "plotted v2 = [record_a, record_b]" "warning v2 = None"
    using display_cap [of sample_lib "[record_a, record_b]"] by auto
  have t2: "count_text v2 = ''Number of buildings: 2''"
    using v2(1) building_map_whole [of "[record_a, record_b]" sample_lib] n2
    by auto
  show ?thesis
    using v1 t1 v2 t2 by blast
qed

text \<open>
  Claim C10. Whenever the cap applies, the plotted rows are the rows of the
  result at 1000 positions that are pairwise different and all within the
  result, whatever numbers the generator produces: no row is plotted twice.
  In particular, when the rows of the result are pairwise different records,
  so are the plotted ones.
\<close>

theorem sample_without_replacement:
  assumes "1000 < length filtered"
  shows "\<exists>view ps. building_map lib filtered = Inr view \<and>
           plotted view = map (\<lambda>i. filtered ! i) ps \<and>
           length ps = 1000 \<and> distinct ps \<and>
           set ps \<subseteq> {0..<length filtered} \<and>
           (distinct filtered \<longrightarrow> distinct (plotted view))"
proof -
  let ?ps = "choice lib (length filtered) 1000"
  have le: "1000 \<le> length filtered" using assms by simp
  note props = choice_props [OF le, of lib]
  let ?view = "\<lparr>count_text = ''Number of buildings: '' @ str_nat (length filtered),
                warning = Some ''Too many buildings to display. Showing 1000 random buildings.'',
                plotted = map (\<lambda>i. filtered ! i) ?ps\<rparr>"
  have rows: "distinct filtered \<longrightarrow> distinct (map (\<lambda>i. filtered ! i) ?ps)"
    using distinct_rows_at_positions [OF _ props(2) props(3)] by blast
  have "building_map lib filtered = Inr ?view \<and>
        plotted ?view = map (\<lambda>i. filtered ! i) ?ps \<and>
        length ?ps = 1000 \<and> distinct ?ps \<and>
        set ?ps \<subseteq> {0..<length filtered} \<and>
        (distinct filtered \<longrightarrow> distinct (plotted ?view))"
    using building_map_capped [OF assms, of lib] props rows by simp
  then show ?thesis by (intro exI)
qed

theorem sample_without_replacement_witness:
  "\<exists>view ps. building_map sample_lib (numbered 1001) = Inr view \<and>
     plotted view = map (\<lambda>i. numbered 1001 ! i) ps \<and>
     length ps = 1000 \<and> distinct ps \<and>
     set ps \<subseteq> {0..<length (numbered 1001)} \<and>
     distinct (plotted view)"
proof -
  have big: "1000 < length (numbered 1001)"
    by (simp add: length_numbered)
  show ?thesis
    using sample_without_replacement [OF big, of sample_lib] distinct_numbered [of 1001]
    by blast
qed

section \<open>Properties of the render\<close>

lemma load_token_no_file:
  assumes "env_file c = None"
  shows "load_token c = Inr None" and "choose_style None = Open_street_map"
  using assms by (simp_all add: load_token_def choose_style_def)

text \<open>
  Claim C4 at the input where the code departs from it. When the settings file
  exists and neither the file nor the environment defines \<^verbatim>\<open>MAPBOX_TOKEN\<close>, the
  render does not fall back to the open tiles: it ends in \<^verbatim>\<open>KeyError\<close>, whatever
  the table and the widget values are.
\<close>

theorem token_missing_variable:
  assumes "env_file c = Some file"
    and "file ''MAPBOX_TOKEN'' = None"
    and "environ c ''MAPBOX_TOKEN'' = None"
  shows "main lib c data p = Inl KeyError"
  using assms by (simp add: main_def load_token_def load_dotenv_def map_add_def)

theorem token_missing_variable_witness:
  "main sample_lib \<lparr>env_file = Some Map.empty, environ = Map.empty\<rparr>
     [record_a, record_b] (widgets '''' ''All'' [''A'', ''B'']) = Inl KeyError"
proof -
  have a: "env_file \<lparr>env_file = Some Map.empty, environ = Map.empty\<rparr> = Some Map.empty"
    by simp
  have b: "(Map.empty :: string \<rightharpoonup> string) ''MAPBOX_TOKEN'' = None" by simp
  have c: "environ \<lparr>env_file = Some (Map.empty :: string \<rightharpoonup> string), environ = Map.empty\<rparr> ''MAPBOX_TOKEN'' = None"
    by simp
  show ?thesis
    by (rule token_missing_variable [OF a b c])
qed

text \<open>
  On an empty table the filter expression by itself gives the empty result
  whenever it returns, and it returns for every text that compiles.
\<close>

lemma filter_empty_table:
  "filter_records lib [] p = Inr [] \<or>
   (\<exists>e. re_compile (other_patterns lib) (selected_zipcode p) = Inl e \<and> compiles_first lib \<and>
        filter_records lib [] p = Inl e)"
  by (auto simp: filter_records_cases split: sum.splits)

text \<open>The slider refuses a table whose unit counts are all the same number.\<close>

lemma main_equal_bounds:
  assumes "load_token c = Inr token"
    and "py_min (map tUNITS data) = Inr v" and "py_max (map tUNITS data) = Inr v"
    and "v \<noteq> NaN"
  shows "main lib c data p = Inl StreamlitAPIException"
  using assms by (simp add: main_def slider_def float_eq_def)


end
